theory Spec2Isabelle
  imports Main
begin

unbundle bit_operations_syntax

section \<open>Lifecycle and event-loop controller of the NFC SDK\<close>

text \<open>
  The controller (type \<open>SDK\<close>, methods \<open>Disposed\<close>, \<open>Run\<close>, \<open>SelectReader\<close>, \<open>init\<close>,
  \<open>dispose\<close>, \<open>handleCard\<close> and the logging facade) is embedded as state-passing functions.
  Every function returns the updated controller, the list of effects it performed (calls
  into the resource manager, log records, the cancellation signal, the wait on the cleanup
  task) and the state of the outside world. The controller is modelled as one sequential
  task: the lock \<open>mu\<close> is taken and released around the same steps and is not represented.
\<close>

subsection \<open>Errors\<close>

text \<open>
  Go error values. \<open>Ext\<close> is an error created outside this file (by the resource-manager
  binding, by a selector callback, or the package's sentinel); \<open>Errorf_w e suffix\<close> is
  \<open>fmt.Errorf("%w<suffix>", e)\<close>; \<open>joinError\<close> is the value built by \<open>errors.Join\<close>.
\<close>

datatype error =
    Ext string
  | Errorf_w error string
  | joinError "error list"

text \<open>\<open>errors.Join\<close> drops nil arguments and returns nil when none is left.\<close>

definition errors_Join :: "error option list \<Rightarrow> error option" where
  "errors_Join errs =
     (case List.map_filter (\<lambda>e. e) errs of
        [] \<Rightarrow> None
      | es \<Rightarrow> Some (joinError es))"

fun join_lines :: "string list \<Rightarrow> string" where
  "join_lines [] = []"
| "join_lines [x] = x"
| "join_lines (x # y # ys) = x @ [CHR 0x0A] @ join_lines (y # ys)"

text \<open>The method \<open>Error()\<close> of an error value.\<close>

fun err_Error :: "error \<Rightarrow> string" where
  "err_Error (Ext m) = m"
| "err_Error (Errorf_w e suffix) = err_Error e @ suffix"
| "err_Error (joinError es) = join_lines (map err_Error es)"

subsection \<open>Data\<close>

text \<open>
  \<open>Reader\<close> is declared beside this file; its fields \<open>id\<close>, \<open>name\<close> and \<open>Use\<close> are the
  ones \<open>init\<close> and \<open>Run\<close> read and write. \<open>ReaderState\<close> belongs to the binding; the
  controller touches \<open>Reader\<close>, \<open>CurrentState\<close> and \<open>EventState\<close>. The state bitmasks
  are only compared and masked, never added, so they are natural numbers with bitwise
  \<open>AND\<close>.
\<close>

record Reader =
  id' :: int
  name :: string
  Use :: bool

record ReaderState =
  Reader :: string
  CurrentState :: nat
  EventState :: nat

type_synonym ReaderSelectFunc = "Reader list \<Rightarrow> Reader list \<times> error option"

type_synonym HContext = nat
type_synonym Card = nat

text \<open>
  The fields of \<open>SDK\<close>. \<open>logger\<close> records whether the injected logger is non-nil;
  \<open>readerSelect\<close> and \<open>hctx\<close> are \<open>None\<close> when the Go field is nil. The fields \<open>ctx\<close>,
  \<open>stop\<close> and \<open>wg\<close> appear through their effects (\<open>ctxDone\<close>, \<open>EvStop\<close>, \<open>EvWait\<close>).
\<close>

record SDK =
  logger :: bool
  disposed :: bool
  readerSelect :: "ReaderSelectFunc option"
  hctx :: "HContext option"
  readers :: "Reader list"

datatype Level = LevelDebug | LevelInfo | LevelWarn | LevelError

text \<open>
  The effects of the controller, in the order they happen. \<open>EvGetStatusChange\<close> carries
  the state list as passed to the call and as the call left it.
\<close>

datatype event =
    EvLog Level string
  | EvStop error
  | EvWait
  | EvEstablishContext nat
  | EvListReaders
  | EvIsValid
  | EvGetStatusChange "ReaderState list" "ReaderState list"
  | EvConnect string nat nat
  | EvProtocol
  | EvDisconnect "Card option" nat
  | EvCancel
  | EvRelease

text \<open>
  What the controller uses and this file does not declare: the constants and calls of
  package \<open>pcsc\<close>, the package's sentinel \<open>Error\<close>, and the poll of \<open>ctx.Done()\<close>. They
  are parameters. Each call takes the state of the outside world and returns the next
  one; a method of \<open>*HContext\<close> or of the card handle receives its receiver, nil
  included. A call is assumed to return.
\<close>

record 'w env =
  Error :: error
  ScardScopeSystem :: nat
  ScardShareExclusive :: nat
  ScardProtocolAny :: nat
  ScardResetCard :: nat
  ScardStateUnaware :: nat
  ScardStatePresent :: nat
  SCardEstablishContext :: "nat \<Rightarrow> 'w \<Rightarrow> (HContext option \<times> error option) \<times> 'w"
  ListReaders :: "HContext option \<Rightarrow> 'w \<Rightarrow> (string list \<times> error option) \<times> 'w"
  IsValid :: "HContext option \<Rightarrow> 'w \<Rightarrow> error option \<times> 'w"
  GetStatusChange ::
    "HContext option \<Rightarrow> ReaderState list \<Rightarrow> int \<Rightarrow> 'w \<Rightarrow> (ReaderState list \<times> error option) \<times> 'w"
  Connect :: "HContext option \<Rightarrow> string \<Rightarrow> nat \<Rightarrow> nat \<Rightarrow> 'w \<Rightarrow> (Card option \<times> error option) \<times> 'w"
  Protocol :: "Card option \<Rightarrow> 'w \<Rightarrow> string \<times> 'w"
  Disconnect :: "Card option \<Rightarrow> nat \<Rightarrow> 'w \<Rightarrow> error option \<times> 'w"
  Cancel :: "HContext option \<Rightarrow> 'w \<Rightarrow> error option \<times> 'w"
  Release :: "HContext option \<Rightarrow> 'w \<Rightarrow> error option \<times> 'w"
  ctxDone :: "'w \<Rightarrow> bool \<times> 'w"

subsection \<open>Logging facade\<close>

definition logPrefix :: string where
  "logPrefix = ''nfc: ''"

definition Log :: "SDK \<Rightarrow> Level \<Rightarrow> string \<Rightarrow> event list" where
  "Log s level msg = (if \<not> logger s then [] else [EvLog level (logPrefix @ msg)])"

definition debug :: "SDK \<Rightarrow> string \<Rightarrow> event list" where
  "debug s msg = Log s LevelDebug msg"

definition info :: "SDK \<Rightarrow> string \<Rightarrow> event list" where
  "info s msg = Log s LevelInfo msg"

definition warn :: "SDK \<Rightarrow> string \<Rightarrow> event list" where
  "warn s msg = Log s LevelWarn msg"

text \<open>The method \<open>error\<close> of \<open>SDK\<close>.\<close>

definition error_log :: "SDK \<Rightarrow> error option \<Rightarrow> event list" where
  "error_log s err = (case err of None \<Rightarrow> [] | Some e \<Rightarrow> Log s LevelError (err_Error e))"

subsection \<open>Disposed, SelectReader, init, dispose\<close>

definition Disposed :: "SDK \<Rightarrow> bool" where
  "Disposed s = disposed s"

definition SelectReader :: "SDK \<Rightarrow> ReaderSelectFunc option \<Rightarrow> SDK \<times> event list" where
  "SelectReader s fn =
     (if readerSelect s \<noteq> None
      then (s, warn s ''reader select callback can only be attached once'')
      else (s\<lparr>readerSelect := fn\<rparr>, []))"

text \<open>The loop of \<open>init\<close> over \<open>readerNames\<close>; \<open>i\<close> is the index of the head.\<close>

fun init_range :: "SDK \<Rightarrow> nat \<Rightarrow> string list \<Rightarrow> SDK \<times> event list" where
  "init_range s i [] = (s, [])"
| "init_range s i (readerName # rest) =
     (let reader = \<lparr>id' = int i + 1, name = readerName, Use = False\<rparr>;
          t = debug s ''found'';
          s1 = s\<lparr>readers := readers s @ [reader]\<rparr>;
          (s2, t2) = init_range s1 (Suc i) rest
      in (s2, t @ t2))"

definition init :: "'w env \<Rightarrow> SDK \<Rightarrow> 'w \<Rightarrow> error option \<times> SDK \<times> event list \<times> 'w" where
  "init E s w =
     (let ((h, err), w1) = SCardEstablishContext E (ScardScopeSystem E) w;
          s1 = s\<lparr>hctx := h\<rparr>;
          t1 = [EvEstablishContext (ScardScopeSystem E)]
      in case err of
           Some e \<Rightarrow> (Some e, s1, t1, w1)
         | None \<Rightarrow>
             (let t2 = t1 @ debug s1 ''scard context established'';
                  ((readerNames, err2), w2) = ListReaders E (hctx s1) w1;
                  t3 = t2 @ [EvListReaders]
              in case err2 of
                   Some e \<Rightarrow> (Some e, s1, t3, w2)
                 | None \<Rightarrow>
                     if length readerNames = 0
                     then (Some (Errorf_w (Error E) '': no readers returned by ListReaders''),
                           s1, t3, w2)
                     else (let (s2, t4) = init_range s1 0 readerNames
                           in (None, s2, t3 @ t4, w2))))"

definition dispose :: "'w env \<Rightarrow> SDK \<Rightarrow> 'w \<Rightarrow> SDK \<times> event list \<times> 'w" where
  "dispose E s w =
     (if Disposed s then (s, warn s ''sdk already disposed'', w)
      else
        (let s1 = s\<lparr>disposed := True\<rparr>;
             t0 = debug s1 ''disposing...''
         in if hctx s1 \<noteq> None
            then
              (let t1 = t0 @ debug s1 ''cancel pending actions'';
                   (err, w1) = Cancel E (hctx s1) w;
                   t2 = t1 @ [EvCancel] @ error_log s1 err;
                   t3 = t2 @ debug s1 ''released scard context'';
                   (err2, w2) = Release E (hctx s1) w1;
                   t4 = t3 @ [EvRelease] @ error_log s1 err2
               in (s1, t4 @ debug s1 ''sdk disposed'', w2))
            else (s1, t0 @ debug s1 ''sdk disposed'', w)))"

subsection \<open>handleCard\<close>

definition handleCard :: "'w env \<Rightarrow> SDK \<Rightarrow> string \<Rightarrow> 'w \<Rightarrow> event list \<times> 'w" where
  "handleCard E s readerName w =
     (let ((card, err), w1) =
            Connect E (hctx s) readerName (ScardShareExclusive E) (ScardProtocolAny E) w;
          t1 = [EvConnect readerName (ScardShareExclusive E) (ScardProtocolAny E)]
      in case err of
           Some e \<Rightarrow> (t1 @ error_log s (Some e), w1)
         | None \<Rightarrow>
             (let (protocols, w2) = Protocol E card w1;
                  t2 = t1 @ [EvProtocol] @ debug s ''card connected'';
                  (err2, w3) = Disconnect E card (ScardResetCard E) w2;
                  t3 = t2 @ [EvDisconnect card (ScardResetCard E)]
              in case err2 of
                   Some e \<Rightarrow> (t3 @ error_log s (Some e), w3)
                 | None \<Rightarrow> (t3 @ debug s ''card disconnected'', w3)))"

subsection \<open>Run\<close>

text \<open>The loop of \<open>Run\<close> that builds \<open>states\<close> from the readers with \<open>Use\<close> set.\<close>

fun build_states :: "'w env \<Rightarrow> Reader list \<Rightarrow> ReaderState list" where
  "build_states E [] = []"
| "build_states E (reader # rest) =
     (if \<not> Use reader then build_states E rest
      else \<lparr>Reader = name reader, CurrentState = ScardStateUnaware E, EventState = 0\<rparr>
             # build_states E rest)"

text \<open>
  \<open>GetStatusChange\<close> receives the slice \<open>states\<close>: it can overwrite the elements, not
  change how many there are. \<open>slice_write old new\<close> is the caller's slice after a callee
  that left \<open>new\<close> in it.
\<close>

definition slice_write :: "'a list \<Rightarrow> 'a list \<Rightarrow> 'a list" where
  "slice_write old new = take (length old) new @ drop (length new) old"

text \<open>
  The inner loop \<open>for i := range states\<close>. The first component is the error of a
  \<open>break runner\<close>, \<open>None\<close> when the range was walked to its end; the second is \<open>states\<close>
  as the loop left it.
\<close>

fun range_states ::
  "'w env \<Rightarrow> SDK \<Rightarrow> ReaderState list \<Rightarrow> 'w \<Rightarrow> error option \<times> ReaderState list \<times> event list \<times> 'w"
where
  "range_states E s [] w = (None, [], [], w)"
| "range_states E s (st # rest) w =
     (let st1 = st\<lparr>CurrentState := EventState st\<rparr>
      in if EventState st1 AND ScardStatePresent E \<noteq> 0
         then
           (let t0 = debug s ''card is present in the reader.'';
                (err, w1) = IsValid E (hctx s) w;
                t1 = t0 @ [EvIsValid]
            in case err of
                 Some e \<Rightarrow> (Some e, st1 # rest, t1 @ error_log s (Some e), w1)
               | None \<Rightarrow>
                   (let (t2, w2) = handleCard E s (Reader st1) w1;
                        (r, rest1, t3, w3) = range_states E s rest w2
                    in (r, st1 # rest1, t1 @ t2 @ t3, w3)))
         else
           (let t0 = debug s ''no card present, waiting...'';
                (r, rest1, t3, w3) = range_states E s rest w
            in (r, st1 # rest1, t0 @ t3, w3)))"

text \<open>
  The loop \<open>runner\<close>. It can run forever, so it takes the number of iterations it may
  start. The result \<open>None\<close> says the loop is still running when they are used up;
  \<open>Some err\<close> is the value of \<open>err\<close> at the \<open>break runner\<close>.
\<close>

fun runner ::
  "nat \<Rightarrow> 'w env \<Rightarrow> SDK \<Rightarrow> ReaderState list \<Rightarrow> 'w \<Rightarrow> error option option \<times> event list \<times> 'w"
where
  "runner 0 E s states w = (None, [], w)"
| "runner (Suc n) E s states w =
     (let (done, w0) = ctxDone E w
      in if done then (Some None, [], w0)
         else
           (let (err, w1) = IsValid E (hctx s) w0;
                t1 = [EvIsValid]
            in case err of
                 Some e \<Rightarrow> (Some (Some e), t1 @ error_log s (Some e), w1)
               | None \<Rightarrow>
                   (let ((written, err2), w2) = GetStatusChange E (hctx s) states (- 1) w1;
                        states1 = slice_write states written;
                        t2 = t1 @ [EvGetStatusChange states states1]
                    in case err2 of
                         Some e \<Rightarrow> (Some (Some e), t2 @ error_log s (Some e), w2)
                       | None \<Rightarrow>
                           (let (err3, states2, t3, w3) = range_states E s states1 w2
                            in case err3 of
                                 Some e \<Rightarrow> (Some (Some e), t2 @ t3, w3)
                               | None \<Rightarrow>
                                   (let (r, t4, w4) = runner n E s states2 w3
                                    in (r, t2 @ t3 @ t4, w4))))))"

text \<open>
  \<open>Run\<close>, in the order of its text. \<open>Run_check\<close> is the first locked section: the
  value of \<open>err\<close> when the lock is released, with the effects so far. \<open>Run_select\<close> is
  the second locked section: the value of \<open>err\<close> and the controller after selection; the
  default branch writes index 0 of an inventory that the first section found non-empty.
\<close>

definition Run_check :: "'w env \<Rightarrow> SDK \<Rightarrow> 'w \<Rightarrow> error option \<times> event list \<times> 'w" where
  "Run_check E s w =
     (let (err0, w1) = IsValid E (hctx s) w;
          t1 = [EvIsValid] @ error_log s err0;
          err = (if length (readers s) = 0
                 then errors_Join [err0, Some (Errorf_w (Error E) '': no readers present'')]
                 else err0)
      in (err, t1, w1))"

definition Run_select :: "SDK \<Rightarrow> error option \<times> SDK" where
  "Run_select s =
     (case readerSelect s of
        Some fn \<Rightarrow> (let (rs, err) = fn (readers s) in (err, s\<lparr>readers := rs\<rparr>))
      | None \<Rightarrow> (None, s\<lparr>readers := (readers s)[0 := (readers s ! 0)\<lparr>Use := True\<rparr>]\<rparr>))"

text \<open>
  The first component of \<open>Run\<close> is \<open>None\<close> while the loop is still running and
  \<open>Some err\<close> when \<open>Run\<close> returns \<open>err\<close>.
\<close>

definition Run ::
  "nat \<Rightarrow> 'w env \<Rightarrow> SDK \<Rightarrow> 'w \<Rightarrow> error option option \<times> SDK \<times> event list \<times> 'w"
where
  "Run fuel E s w =
     (let (err, t1, w1) = Run_check E s w
      in case err of
           Some e \<Rightarrow> (Some (Some e), s, t1 @ [EvStop e, EvWait], w1)
         | None \<Rightarrow>
             (let (err2, s2) = Run_select s
              in case err2 of
                   Some e \<Rightarrow> (Some (Some e), s2, t1 @ [EvStop e, EvWait], w1)
                 | None \<Rightarrow>
                     (let states = build_states E (readers s2)
                      in if length states = 0
                         then (let e = Errorf_w (Error E) '': no readers enabled''
                               in (Some (Some e), s2, t1 @ [EvStop e, EvWait], w1))
                         else
                           (let (r, t2, w2) = runner fuel E s2 states w1
                            in case r of
                                 None \<Rightarrow> (None, s2, t1 @ t2, w2)
                               | Some res \<Rightarrow>
                                   (Some res, s2, t1 @ t2 @ [EvWait] @ debug s2 ''exiting'', w2)))))"

subsection \<open>Reading the effects\<close>

text \<open>The wait-for-change calls of a list of effects, oldest first.\<close>

fun waits :: "event list \<Rightarrow> (ReaderState list \<times> ReaderState list) list" where
  "waits [] = []"
| "waits (EvGetStatusChange passed left # t) = (passed, left) # waits t"
| "waits (_ # t) = waits t"

fun is_connect :: "event \<Rightarrow> bool" where
  "is_connect (EvConnect _ _ _) = True"
| "is_connect _ = False"

fun is_disconnect :: "event \<Rightarrow> bool" where
  "is_disconnect (EvDisconnect _ _) = True"
| "is_disconnect _ = False"

fun is_stop :: "event \<Rightarrow> bool" where
  "is_stop (EvStop _) = True"
| "is_stop _ = False"

text \<open>
  \<open>armed left\<close> is a state list after every \<open>CurrentState\<close> took its \<open>EventState\<close>;
  \<open>linked cur ws\<close> says that the first wait of \<open>ws\<close> was passed \<open>cur\<close> and every later
  one the armed list its predecessor left.
\<close>

definition armed :: "ReaderState list \<Rightarrow> ReaderState list" where
  "armed sts = map (\<lambda>st. st\<lparr>CurrentState := EventState st\<rparr>) sts"

fun linked :: "ReaderState list \<Rightarrow> (ReaderState list \<times> ReaderState list) list \<Rightarrow> bool" where
  "linked cur [] = True"
| "linked cur ((passed, left) # ws) = (passed = cur \<and> linked (armed left) ws)"

subsection \<open>A resource manager with two readers\<close>

text \<open>
  A concrete outside world for the examples: the world is the number of calls made so
  far, two readers are listed, every call succeeds, and a wait reports a card on every
  reader when the count is even.
\<close>

definition demo_env :: "nat env" where
  "demo_env =
     \<lparr>Error = Ext ''nfc'',
      ScardScopeSystem = 2,
      ScardShareExclusive = 1,
      ScardProtocolAny = 3,
      ScardResetCard = 1,
      ScardStateUnaware = 0,
      ScardStatePresent = 32,
      SCardEstablishContext = (\<lambda>scope w. ((Some 7, None), Suc w)),
      ListReaders = (\<lambda>h w. (([''R0'', ''R1''], None), Suc w)),
      IsValid = (\<lambda>h w. (None, Suc w)),
      GetStatusChange =
        (\<lambda>h states timeout w.
           ((map (\<lambda>st. st\<lparr>EventState := (if even w then 34 else 18)\<rparr>) states, None), Suc w)),
      Connect = (\<lambda>h readerName share proto w. ((Some 1, None), Suc w)),
      Protocol = (\<lambda>card w. (''T=1'', w)),
      Disconnect = (\<lambda>card disposition w. (None, Suc w)),
      Cancel = (\<lambda>h w. (None, Suc w)),
      Release = (\<lambda>h w. (None, Suc w)),
      ctxDone = (\<lambda>w. (False, w))\<rparr>"

definition demo_readers :: "Reader list" where
  "demo_readers =
     [\<lparr>id' = 1, name = ''R0'', Use = False\<rparr>, \<lparr>id' = 2, name = ''R1'', Use = False\<rparr>]"

definition demo_new :: SDK where
  "demo_new =
     \<lparr>logger = True, disposed = False, readerSelect = None, hctx = None, readers = []\<rparr>"

definition demo_sdk :: SDK where
  "demo_sdk =
     \<lparr>logger = True, disposed = False, readerSelect = None, hctx = Some 7,
      readers = demo_readers\<rparr>"

text \<open>Selectors: one keeps the second reader, one keeps nobody, one fails.\<close>

definition select_second :: ReaderSelectFunc where
  "select_second rs = (map (\<lambda>r. r\<lparr>Use := True\<rparr>) (drop 1 rs), None)"

definition select_none :: ReaderSelectFunc where
  "select_none rs = ([], None)"

definition select_fails :: ReaderSelectFunc where
  "select_fails rs = ([], Some (Ext ''selector failed''))"

text \<open>Resource managers that fail: an invalid session, a failing wait, a failing connect.\<close>

definition env_invalid :: "nat env" where
  "env_invalid = demo_env\<lparr>IsValid := (\<lambda>h w. (Some (Ext ''invalid context''), Suc w))\<rparr>"

definition env_wait_fails :: "nat env" where
  "env_wait_fails =
     demo_env\<lparr>GetStatusChange :=
       (\<lambda>h states timeout w. ((states, Some (Ext ''wait failed'')), Suc w))\<rparr>"

definition env_connect_fails :: "nat env" where
  "env_connect_fails =
     demo_env\<lparr>Connect :=
       (\<lambda>h readerName share proto w. ((None, Some (Ext ''connect failed'')), Suc w))\<rparr>"

definition env_no_readers :: "nat env" where
  "env_no_readers = demo_env\<lparr>ListReaders := (\<lambda>h w. (([], None), Suc w))\<rparr>"

text \<open>
  A session that turns invalid after the first check, a cancel call that fails, and a
  context that is already cancelled.
\<close>

definition env_invalid_later :: "nat env" where
  "env_invalid_later =
     demo_env\<lparr>IsValid :=
       (\<lambda>h w. (if w = 0 then None else Some (Ext ''invalid context''), Suc w))\<rparr>"

definition env_cancel_fails :: "nat env" where
  "env_cancel_fails = demo_env\<lparr>Cancel := (\<lambda>h w. (Some (Ext ''cancel failed''), Suc w))\<rparr>"

definition env_cancelled :: "nat env" where
  "env_cancelled = demo_env\<lparr>ctxDone := (\<lambda>w. (True, w))\<rparr>"

section \<open>Properties\<close>

subsection \<open>The disposal flag\<close>

lemma init_range_disposed: "disposed (fst (init_range s i ns)) = disposed s"
  by (induction s i ns rule: init_range.induct) (simp_all add: Let_def case_prod_beta)

lemma init_disposed: "disposed (fst (snd (init E s w))) = disposed s"
  by (simp add: init_def Let_def case_prod_beta init_range_disposed split: option.splits)

lemma Run_select_disposed: "disposed (snd (Run_select s)) = disposed s"
  by (simp add: Run_select_def case_prod_beta split: option.splits)

lemma Run_disposed: "disposed (fst (snd (Run n E s w))) = disposed s"
  by (simp add: Run_def Let_def case_prod_beta Run_select_disposed split: option.splits)

text \<open>
  C2. On a controller that is not disposed, \<open>Disposed\<close> is false; after the first
  \<open>dispose\<close> it is true. Every later \<open>dispose\<close>, in any state of the world, returns the
  controller and the world unchanged and its only effect is the warning handed to the
  logging facade (so neither \<open>Cancel\<close> nor \<open>Release\<close> is called again). The flag stays
  true under every operation of the controller: \<open>dispose\<close>, \<open>SelectReader\<close>, \<open>init\<close>
  and \<open>Run\<close>.
\<close>

theorem dispose_flag_once:
  assumes "\<not> Disposed s"
  shows "Disposed (fst (dispose E s w))
    \<and> (\<forall>w'. dispose E (fst (dispose E s w)) w'
          = (fst (dispose E s w),
             (if logger s then [EvLog LevelWarn ''nfc: sdk already disposed''] else []), w'))
    \<and> (\<forall>fn n u. Disposed (fst (dispose E (fst (dispose E s w)) u))
          \<and> Disposed (fst (SelectReader (fst (dispose E s w)) fn))
          \<and> Disposed (fst (snd (init E (fst (dispose E s w)) u)))
          \<and> Disposed (fst (snd (Run n E (fst (dispose E s w)) u))))"
proof -
  obtain s1 t1 w1 where d: "dispose E s w = (s1, t1, w1)"
    by (cases "dispose E s w") auto
  from assms d have s1: "s1 = s\<lparr>disposed := True\<rparr>"
    by (auto simp: dispose_def Let_def Disposed_def split: if_splits prod.splits)
  have a: "Disposed s1"
    using s1 by (simp add: Disposed_def)
  have b: "dispose E s1 w' =
      (s1, (if logger s then [EvLog LevelWarn ''nfc: sdk already disposed''] else []), w')"
    for w'
    using s1 by (simp add: dispose_def Disposed_def warn_def Log_def logPrefix_def)
  have c: "Disposed (fst (SelectReader s1 fn))" for fn
    using a by (simp add: SelectReader_def Disposed_def)
  have d1: "Disposed (fst (snd (init E s1 u)))" for u
    using a by (simp add: Disposed_def init_disposed)
  have e: "Disposed (fst (snd (Run n E s1 u)))" for n u
    using a by (simp add: Disposed_def Run_disposed)
  show ?thesis
    using a b c d1 e d by simp
qed

theorem dispose_flag_once_witness:
  "\<not> Disposed demo_sdk
   \<and> Disposed (fst (dispose demo_env demo_sdk 0))
   \<and> dispose demo_env (fst (dispose demo_env demo_sdk 0)) 5
       = (fst (dispose demo_env demo_sdk 0),
          [EvLog LevelWarn ''nfc: sdk already disposed''], 5)"
proof -
  have h: "\<not> Disposed demo_sdk"
    by (simp add: Disposed_def demo_sdk_def)
  have l: "logger demo_sdk"
    by (simp add: demo_sdk_def)
  show ?thesis
    using h l dispose_flag_once [OF h, of demo_env 0] by simp
qed

subsection \<open>Registering the reader selector\<close>

text \<open>
  C3, as stated, fails: a first call that passes nil leaves the field unset, so the
  second call installs its policy, changes the controller and emits no warning.
\<close>

theorem select_reader_twice_counterexample:
  "readerSelect (fst (SelectReader demo_sdk None)) = None
   \<and> readerSelect (fst (SelectReader (fst (SelectReader demo_sdk None)) (Some select_second)))
       = Some select_second
   \<and> fst (SelectReader (fst (SelectReader demo_sdk None)) (Some select_second))
       \<noteq> fst (SelectReader demo_sdk None)
   \<and> snd (SelectReader (fst (SelectReader demo_sdk None)) (Some select_second)) = []"
  by (simp add: SelectReader_def demo_sdk_def)

text \<open>
  C3, amended. When no policy is registered and the first call passes a policy that is
  not nil, that policy is installed, and a second call with any argument returns the
  controller unchanged (the first policy stays) and hands one warning to the logging
  facade, which emits it when a logger is injected.
\<close>

theorem select_reader_once:
  assumes "readerSelect s = None"
  shows "readerSelect (fst (SelectReader s (Some fn))) = Some fn
    \<and> SelectReader (fst (SelectReader s (Some fn))) fn2
        = (fst (SelectReader s (Some fn)),
           (if logger s
            then [EvLog LevelWarn ''nfc: reader select callback can only be attached once'']
            else []))"
  using assms by (simp add: SelectReader_def warn_def Log_def logPrefix_def)

theorem select_reader_once_witness:
  "readerSelect demo_sdk = None
   \<and> readerSelect (fst (SelectReader demo_sdk (Some select_second))) = Some select_second
   \<and> SelectReader (fst (SelectReader demo_sdk (Some select_second))) (Some select_none)
       = (fst (SelectReader demo_sdk (Some select_second)),
          [EvLog LevelWarn ''nfc: reader select callback can only be attached once''])"
proof -
  have h: "readerSelect demo_sdk = None"
    by (simp add: demo_sdk_def)
  have l: "logger demo_sdk"
    by (simp add: demo_sdk_def)
  show ?thesis
    using h l select_reader_once [OF h, of select_second "Some select_none"] by simp
qed

subsection \<open>The exits of Run before the loop\<close>

lemma Run_check_eq:
  "IsValid E (hctx s) w = (err0, w1) \<Longrightarrow>
   Run_check E s w =
     ((if readers s = []
       then errors_Join [err0, Some (Errorf_w (Error E) '': no readers present'')]
       else err0),
      EvIsValid # error_log s err0, w1)"
  by (simp add: Run_check_def)

lemma errors_Join_two:
  "errors_Join [a, Some b] = Some (case a of None \<Rightarrow> joinError [b] | Some e \<Rightarrow> joinError [e, b])"
  by (cases a) (simp_all add: errors_Join_def List.map_filter_simps)

text \<open>
  C6. When the session is invalid at the start of \<open>Run\<close> or the inventory is empty,
  \<open>Run\<close> returns for every number of loop iterations allowed, so it never enters the
  loop: its effects are the validity check, the log of the validity error if there is
  one, the cancellation signal \<open>stop\<close> carrying the error, and the wait on the cleanup
  task, and it returns that same error with the controller unchanged. The error is the
  validity error alone when only the session is invalid, the join of the "no readers
  present" error when only the inventory is empty, and the join of both when both checks
  fail.
\<close>

theorem Run_start_check:
  assumes "IsValid E (hctx s) w = (err0, w1)"
      and "err0 \<noteq> None \<or> readers s = []"
  shows "let no_readers = Errorf_w (Error E) '': no readers present'';
             e = (case err0 of
                    Some e0 \<Rightarrow> if readers s = [] then joinError [e0, no_readers] else e0
                  | None \<Rightarrow> joinError [no_readers])
         in Run fuel E s w =
              (Some (Some e), s, [EvIsValid] @ error_log s err0 @ [EvStop e, EvWait], w1)"
  using assms
  by (cases err0) (simp_all add: Run_def Run_check_eq errors_Join_two Let_def)

theorem Run_start_check_witness:
  "Run 3 env_invalid (demo_sdk\<lparr>readers := []\<rparr>) 0 =
     (Some (Some (joinError [Ext ''invalid context'', Errorf_w (Ext ''nfc'') '': no readers present''])),
      demo_sdk\<lparr>readers := []\<rparr>,
      [EvIsValid, EvLog LevelError ''nfc: invalid context'',
       EvStop (joinError [Ext ''invalid context'', Errorf_w (Ext ''nfc'') '': no readers present'']),
       EvWait], 1)"
proof -
  have h1: "IsValid env_invalid (hctx (demo_sdk\<lparr>readers := []\<rparr>)) 0 = (Some (Ext ''invalid context''), 1)"
    by (simp add: env_invalid_def demo_env_def)
  have h2: "Some (Ext ''invalid context'') \<noteq> None \<or> readers (demo_sdk\<lparr>readers := []\<rparr>) = []"
    by simp
  have e: "Error env_invalid = Ext ''nfc''"
    by (simp add: env_invalid_def demo_env_def)
  have l: "error_log (demo_sdk\<lparr>readers := []\<rparr>) (Some (Ext ''invalid context'')) = [EvLog LevelError ''nfc: invalid context'']"
    by (simp add: error_log_def Log_def logPrefix_def demo_sdk_def)
  show ?thesis
    using Run_start_check [OF h1 h2, of 3] e l by (simp add: Let_def)
qed


lemma Run_check_passes:
  "IsValid E (hctx s) w = (None, w1) \<Longrightarrow> readers s \<noteq> [] \<Longrightarrow>
   Run_check E s w = (None, [EvIsValid], w1)"
  by (simp add: Run_check_eq error_log_def)

lemma build_states_unused: "\<forall>r\<in>set rs. \<not> Use r \<Longrightarrow> build_states E rs = []"
  by (induction rs) simp_all

text \<open>
  C10. When the checks pass and the registered selector returns a slice \<open>rs\<close> together
  with an error, \<open>Run\<close> stores \<open>rs\<close> as the inventory, signals \<open>stop\<close> with that error,
  waits and returns it: the inventory before selection is not restored.
\<close>

theorem Run_selector_error:
  assumes "IsValid E (hctx s) w = (None, w1)"
      and "readers s \<noteq> []"
      and "readerSelect s = Some fn"
      and "fn (readers s) = (rs, Some e)"
  shows "Run fuel E s w = (Some (Some e), s\<lparr>readers := rs\<rparr>, [EvIsValid, EvStop e, EvWait], w1)"
  using assms by (simp add: Run_def Run_check_passes Run_select_def)

theorem Run_selector_error_witness:
  "Run 3 demo_env (demo_sdk\<lparr>readerSelect := Some select_fails\<rparr>) 0 =
     (Some (Some (Ext ''selector failed'')),
      demo_sdk\<lparr>readerSelect := Some select_fails, readers := []\<rparr>,
      [EvIsValid, EvStop (Ext ''selector failed''), EvWait], 1)
   \<and> readers (demo_sdk\<lparr>readerSelect := Some select_fails\<rparr>) = demo_readers
   \<and> demo_readers \<noteq> []"
proof -
  let ?s = "demo_sdk\<lparr>readerSelect := Some select_fails\<rparr>"
  have h1: "IsValid demo_env (hctx ?s) 0 = (None, 1)"
    by (simp add: demo_env_def)
  have h2: "readers ?s \<noteq> []"
    by (simp add: demo_sdk_def demo_readers_def)
  have h3: "readerSelect ?s = Some select_fails"
    by simp
  have h4: "select_fails (readers ?s) = ([], Some (Ext ''selector failed''))"
    by (simp add: select_fails_def)
  show ?thesis
    using Run_selector_error [OF h1 h2 h3 h4, of 3] h2
    by (simp add: demo_sdk_def)
qed

text \<open>
  C5. When the checks pass, the selection step returns no error and leaves no reader
  with \<open>Use\<close> set, \<open>Run\<close> returns the "no readers enabled" error (its text is the text of
  the sentinel followed by ": no readers enabled"), after signalling \<open>stop\<close> with it and
  waiting for the cleanup task, and no wait-for-change call is among its effects.
\<close>

theorem Run_no_readers_enabled:
  assumes "IsValid E (hctx s) w = (None, w1)"
      and "readers s \<noteq> []"
      and "Run_select s = (None, s2)"
      and "\<forall>r\<in>set (readers s2). \<not> Use r"
  shows "Run fuel E s w =
           (Some (Some (Errorf_w (Error E) '': no readers enabled'')), s2,
            [EvIsValid, EvStop (Errorf_w (Error E) '': no readers enabled''), EvWait], w1)
         \<and> err_Error (Errorf_w (Error E) '': no readers enabled'')
             = err_Error (Error E) @ '': no readers enabled''
         \<and> waits (fst (snd (snd (Run fuel E s w)))) = []"
  using assms by (simp add: Run_def Run_check_passes build_states_unused Let_def)

theorem Run_no_readers_enabled_witness:
  "Run 3 demo_env (demo_sdk\<lparr>readerSelect := Some select_none\<rparr>) 0 =
     (Some (Some (Errorf_w (Ext ''nfc'') '': no readers enabled'')),
      demo_sdk\<lparr>readerSelect := Some select_none, readers := []\<rparr>,
      [EvIsValid, EvStop (Errorf_w (Ext ''nfc'') '': no readers enabled''), EvWait], 1)"
proof -
  let ?s = "demo_sdk\<lparr>readerSelect := Some select_none\<rparr>"
  have h1: "IsValid demo_env (hctx ?s) 0 = (None, 1)"
    by (simp add: demo_env_def)
  have h2: "readers ?s \<noteq> []"
    by (simp add: demo_sdk_def demo_readers_def)
  have h3: "Run_select ?s = (None, ?s\<lparr>readers := []\<rparr>)"
    by (simp add: Run_select_def select_none_def)
  have h4: "\<forall>r\<in>set (readers (?s\<lparr>readers := []\<rparr>)). \<not> Use r"
    by simp
  have e: "Error demo_env = Ext ''nfc''"
    by (simp add: demo_env_def)
  show ?thesis
    using Run_no_readers_enabled [OF h1 h2 h3 h4, of 3] e
    by (simp add: demo_sdk_def)
qed

lemma Run_readers:
  "fst (Run_check E s w) = None \<Longrightarrow> readers (fst (snd (Run fuel E s w))) = readers (snd (Run_select s))"
  by (simp add: Run_def Let_def case_prod_beta split: option.splits)

text \<open>
  C4. With no selector registered, a valid session and an inventory \<open>r0 # rest\<close> in which
  no reader has \<open>Use\<close> set (as \<open>init\<close> leaves it), the inventory after \<open>Run\<close> is \<open>r0\<close>
  with \<open>Use\<close> set followed by \<open>rest\<close> unchanged: the first reader is used and no other.
\<close>

theorem Run_default_selection:
  assumes "IsValid E (hctx s) w = (None, w1)"
      and "readerSelect s = None"
      and "readers s = r0 # rest"
      and "\<forall>r\<in>set (readers s). \<not> Use r"
  shows "readers (fst (snd (Run fuel E s w))) = r0\<lparr>Use := True\<rparr> # rest
         \<and> Use (hd (readers (fst (snd (Run fuel E s w)))))
         \<and> (\<forall>r\<in>set (tl (readers (fst (snd (Run fuel E s w))))). \<not> Use r)"
proof -
  have "fst (Run_check E s w) = None"
    using assms(1,3) by (simp add: Run_check_passes)
  then have "readers (fst (snd (Run fuel E s w))) = readers (snd (Run_select s))"
    by (rule Run_readers)
  also have "\<dots> = r0\<lparr>Use := True\<rparr> # rest"
    using assms(2,3) by (simp add: Run_select_def)
  finally show ?thesis
    using assms(3,4) by simp
qed

theorem Run_default_selection_witness:
  "readers (fst (snd (Run 2 demo_env demo_sdk 0))) =
     [\<lparr>id' = 1, name = ''R0'', Use = True\<rparr>, \<lparr>id' = 2, name = ''R1'', Use = False\<rparr>]"
proof -
  have h1: "IsValid demo_env (hctx demo_sdk) 0 = (None, 1)"
    by (simp add: demo_env_def)
  have h2: "readerSelect demo_sdk = None"
    by (simp add: demo_sdk_def)
  have h3: "readers demo_sdk = \<lparr>id' = 1, name = ''R0'', Use = False\<rparr> # [\<lparr>id' = 2, name = ''R1'', Use = False\<rparr>]"
    by (simp add: demo_sdk_def demo_readers_def)
  have h4: "\<forall>r\<in>set (readers demo_sdk). \<not> Use r"
    by (simp add: demo_sdk_def demo_readers_def)
  show ?thesis
    using Run_default_selection [OF h1 h2 h3 h4, of 2] by simp
qed


subsection \<open>Initialisation\<close>

lemma init_range_readers:
  "readers (fst (init_range s i ns)) =
     readers s @ map (\<lambda>(k, n). \<lparr>id' = int k + 1, name = n, Use = False\<rparr>) (enumerate i ns)"
  by (induction s i ns rule: init_range.induct) (simp_all add: Let_def case_prod_beta)

lemma init_range_hctx: "hctx (fst (init_range s i ns)) = hctx s"
  by (induction s i ns rule: init_range.induct) (simp_all add: Let_def case_prod_beta)

text \<open>
  C7. \<open>init\<close> establishes the session and lists the readers with the handle it got. It
  returns the error of the establish call, else the error of the list call, else the "no
  readers returned by ListReaders" error when the list is empty, else nil. When it returns
  nil it has stored the handle and appended to the inventory one reader per name, in the
  order listed, with ids 1, 2, 3, ... and \<open>Use\<close> false; when it returns an error the
  inventory is unchanged.
\<close>

theorem init_inventory:
  assumes "SCardEstablishContext E (ScardScopeSystem E) w = ((h, err1), w1)"
      and "ListReaders E h w1 = ((names, err2), w2)"
  shows "fst (init E s w) =
           (case err1 of
              Some e \<Rightarrow> Some e
            | None \<Rightarrow>
                (case err2 of
                   Some e \<Rightarrow> Some e
                 | None \<Rightarrow>
                     if names = []
                     then Some (Errorf_w (Error E) '': no readers returned by ListReaders'')
                     else None))
         \<and> (fst (init E s w) = None \<longrightarrow>
              readers (fst (snd (init E s w))) =
                readers s @
                map (\<lambda>(k, n). \<lparr>id' = int k + 1, name = n, Use = False\<rparr>) (enumerate 0 names)
              \<and> hctx (fst (snd (init E s w))) = h)
         \<and> (fst (init E s w) \<noteq> None \<longrightarrow> readers (fst (snd (init E s w))) = readers s)"
  using assms
  by (simp add: init_def Let_def case_prod_beta init_range_readers init_range_hctx
      split: option.splits)

theorem init_inventory_witness:
  "fst (init demo_env demo_new 0) = None
   \<and> readers (fst (snd (init demo_env demo_new 0))) =
       [\<lparr>id' = 1, name = ''R0'', Use = False\<rparr>, \<lparr>id' = 2, name = ''R1'', Use = False\<rparr>]
   \<and> fst (init env_no_readers demo_new 0)
       = Some (Errorf_w (Ext ''nfc'') '': no readers returned by ListReaders'')"
proof -
  have h1: "SCardEstablishContext demo_env (ScardScopeSystem demo_env) 0 = ((Some 7, None), 1)"
    by (simp add: demo_env_def)
  have h2: "ListReaders demo_env (Some 7) 1 = (([''R0'', ''R1''], None), 2)"
    by (simp add: demo_env_def)
  have g1: "SCardEstablishContext env_no_readers (ScardScopeSystem env_no_readers) 0 = ((Some 7, None), 1)"
    by (simp add: env_no_readers_def demo_env_def)
  have g2: "ListReaders env_no_readers (Some 7) 1 = (([], None), 2)"
    by (simp add: env_no_readers_def demo_env_def)
  have e: "Error env_no_readers = Ext ''nfc''"
    by (simp add: env_no_readers_def demo_env_def)
  have r: "readers demo_new = []"
    by (simp add: demo_new_def)
  show ?thesis
    using init_inventory [OF h1 h2, of demo_new] init_inventory [OF g1 g2, of demo_new] e r
    by (simp add: enumerate_simps)
qed

subsection \<open>Errors inside the loop\<close>

text \<open>
  C1. The claim: for every fatal error, \<open>Run\<close> calls \<open>stop\<close> with that error before it
  waits for the cleanup task and returns the error. The exits before the loop do so (C5,
  C6, C10). Inside the loop the code does not: when the wait-for-change call fails, \<open>Run\<close>
  logs the error, waits for the cleanup task and returns the error, and \<open>stop\<close> is not
  among its effects.
\<close>

theorem Run_wait_failure_no_stop:
  "Run 1 env_wait_fails demo_sdk 0 =
     (Some (Some (Ext ''wait failed'')),
      demo_sdk\<lparr>readers := [\<lparr>id' = 1, name = ''R0'', Use = True\<rparr>,
                            \<lparr>id' = 2, name = ''R1'', Use = False\<rparr>]\<rparr>,
      [EvIsValid, EvIsValid,
       EvGetStatusChange [\<lparr>Reader = ''R0'', CurrentState = 0, EventState = 0\<rparr>]
                         [\<lparr>Reader = ''R0'', CurrentState = 0, EventState = 0\<rparr>],
       EvLog LevelError ''nfc: wait failed'', EvWait, EvLog LevelDebug ''nfc: exiting''],
      3)
   \<and> filter is_stop (fst (snd (snd (Run 1 env_wait_fails demo_sdk 0)))) = []"
  by (simp add: Run_def Run_check_def Run_select_def env_wait_fails_def demo_env_def
      demo_sdk_def demo_readers_def error_log_def Log_def debug_def logPrefix_def
      slice_write_def Let_def)

subsection \<open>The state list between wait calls\<close>

lemma waits_append: "waits (a @ b) = waits a @ waits b"
  by (induction a rule: waits.induct) simp_all

lemma waits_Log: "waits (Log s l m) = []"
  by (simp add: Log_def)

lemma waits_debug: "waits (debug s m) = []"
  by (simp add: debug_def waits_Log)

lemma waits_error_log: "waits (error_log s e) = []"
  by (cases e) (simp_all add: error_log_def waits_Log)

lemma waits_handleCard: "waits (fst (handleCard E s n w)) = []"
  by (simp add: handleCard_def Let_def case_prod_beta waits_append waits_debug waits_error_log
      split: option.splits)

lemma range_states_waits: "waits (fst (snd (snd (range_states E s sts w)))) = []"
  by (induction sts arbitrary: w)
     (simp_all add: Let_def case_prod_beta waits_append waits_debug waits_error_log
        waits_handleCard split: option.splits)

lemma range_states_armed:
  "fst (range_states E s sts w) = None \<Longrightarrow> fst (snd (range_states E s sts w)) = armed sts"
  by (induction sts arbitrary: w)
     (simp_all add: armed_def Let_def case_prod_beta split: option.splits if_splits)

lemma runner_linked: "linked states (waits (fst (snd (runner n E s states w))))"
proof (induction n arbitrary: states w)
  case 0
  show ?case by simp
next
  case (Suc n)
  show ?case
    by (simp add: Let_def case_prod_beta waits_append waits_error_log range_states_waits
        range_states_armed Suc.IH split: option.splits)
qed

lemma build_states_unaware:
  "\<forall>st\<in>set (build_states E rs). CurrentState st = ScardStateUnaware E"
  by (induction rs) simp_all

lemma waits_Run_check: "waits (fst (snd (Run_check E s w))) = []"
  by (simp add: Run_check_def Let_def case_prod_beta waits_error_log)

lemma Run_linked:
  "linked (build_states E (readers (snd (Run_select s)))) (waits (fst (snd (snd (Run n E s w)))))"
  by (simp add: Run_def Let_def case_prod_beta waits_append waits_Run_check waits_debug
      runner_linked split: option.splits)

lemma linked_hd: "linked cur ws \<Longrightarrow> ws \<noteq> [] \<Longrightarrow> fst (hd ws) = cur"
  by (cases ws) auto

lemma linked_nth:
  "linked cur ws \<Longrightarrow> Suc i < length ws \<Longrightarrow> fst (ws ! Suc i) = armed (snd (ws ! i))"
proof (induction ws arbitrary: cur i)
  case Nil
  then show ?case by simp
next
  case (Cons a ws)
  obtain p l where a: "a = (p, l)" by (cases a)
  show ?case
  proof (cases i)
    case 0
    with Cons.prems a show ?thesis
      by (cases ws) auto
  next
    case (Suc j)
    with Cons.prems a Cons.IH [of "armed l" j] show ?thesis
      by simp
  qed
qed

text \<open>
  C8. In the effects of \<open>Run\<close>, after any number of loop iterations: the first
  wait-for-change call is passed states whose \<open>CurrentState\<close> is "unaware", and every
  later call is passed exactly the states the call before it left, each with its
  \<open>CurrentState\<close> replaced by its \<open>EventState\<close>. So at every wait call the
  \<open>CurrentState\<close> of each tracked reader is the \<open>EventState\<close> the previous wait call
  reported for it.
\<close>

theorem Run_current_state_armed:
  "(waits (fst (snd (snd (Run fuel E s w)))) \<noteq> [] \<longrightarrow>
      (\<forall>st\<in>set (fst (hd (waits (fst (snd (snd (Run fuel E s w))))))).
         CurrentState st = ScardStateUnaware E))
   \<and> (\<forall>i. Suc i < length (waits (fst (snd (snd (Run fuel E s w))))) \<longrightarrow>
         fst (waits (fst (snd (snd (Run fuel E s w)))) ! Suc i)
           = map (\<lambda>st. st\<lparr>CurrentState := EventState st\<rparr>)
               (snd (waits (fst (snd (snd (Run fuel E s w)))) ! i))
         \<and> map CurrentState (fst (waits (fst (snd (snd (Run fuel E s w)))) ! Suc i))
           = map EventState (snd (waits (fst (snd (snd (Run fuel E s w)))) ! i)))"
proof -
  let ?ws = "waits (fst (snd (snd (Run fuel E s w))))"
  let ?cur = "build_states E (readers (snd (Run_select s)))"
  have l: "linked ?cur ?ws"
    by (rule Run_linked)
  have a: "?ws \<noteq> [] \<longrightarrow> (\<forall>st\<in>set (fst (hd ?ws)). CurrentState st = ScardStateUnaware E)"
    using linked_hd [OF l] build_states_unaware [of E] by simp
  have b: "fst (?ws ! Suc i) = map (\<lambda>st. st\<lparr>CurrentState := EventState st\<rparr>) (snd (?ws ! i))"
    if "Suc i < length ?ws" for i
    using linked_nth [OF l that] by (simp add: armed_def)
  have c: "map CurrentState (fst (?ws ! Suc i)) = map EventState (snd (?ws ! i))"
    if "Suc i < length ?ws" for i
    using b [OF that] by simp
  show ?thesis
    using a b c by blast
qed


theorem Run_current_state_armed_witness:
  "waits (fst (snd (snd (Run (Suc (Suc 0)) demo_env demo_sdk 0)))) =
     [([\<lparr>Reader = ''R0'', CurrentState = 0, EventState = 0\<rparr>],
       [\<lparr>Reader = ''R0'', CurrentState = 0, EventState = 34\<rparr>]),
      ([\<lparr>Reader = ''R0'', CurrentState = 34, EventState = 34\<rparr>],
       [\<lparr>Reader = ''R0'', CurrentState = 34, EventState = 18\<rparr>])]
   \<and> map CurrentState (fst (waits (fst (snd (snd (Run (Suc (Suc 0)) demo_env demo_sdk 0)))) ! Suc 0))
       = map EventState (snd (waits (fst (snd (snd (Run (Suc (Suc 0)) demo_env demo_sdk 0)))) ! 0))"
proof -
  have tr: "waits (fst (snd (snd (Run (Suc (Suc 0)) demo_env demo_sdk 0)))) =
     [([\<lparr>Reader = ''R0'', CurrentState = 0, EventState = 0\<rparr>],
       [\<lparr>Reader = ''R0'', CurrentState = 0, EventState = 34\<rparr>]),
      ([\<lparr>Reader = ''R0'', CurrentState = 34, EventState = 34\<rparr>],
       [\<lparr>Reader = ''R0'', CurrentState = 34, EventState = 18\<rparr>])]"
    by (simp add: Run_def Run_check_def Run_select_def handleCard_def demo_env_def
        demo_sdk_def demo_readers_def error_log_def Log_def debug_def logPrefix_def
        slice_write_def Let_def)
  then have len: "Suc 0 < length (waits (fst (snd (snd (Run (Suc (Suc 0)) demo_env demo_sdk 0)))))"
    by simp
  show ?thesis
    using Run_current_state_armed [of "Suc (Suc 0)" demo_env demo_sdk 0] len tr by blast
qed

subsection \<open>The card session handler\<close>

lemma range_states_valid:
  "\<forall>h u. fst (IsValid E h u) = None \<Longrightarrow> fst (range_states E s sts w) = None"
  by (induction sts arbitrary: w) (simp_all add: Let_def case_prod_beta split: option.splits)

lemma runner_keeps_running:
  assumes "\<forall>h u. fst (IsValid E h u) = None"
      and "\<forall>h sts t u. snd (fst (GetStatusChange E h sts t u)) = None"
      and "\<forall>u. \<not> fst (ctxDone E u)"
  shows "fst (runner fuel E s sts w) = None"
  using assms
  by (induction fuel arbitrary: sts w)
     (simp_all add: Let_def case_prod_beta range_states_valid split: option.splits)

text \<open>
  C9. Every call of \<open>handleCard\<close> makes exactly one connect call. When connect fails,
  the handler logs the error and returns, without a disconnect. When connect succeeds,
  the next call on the card (after reading its protocol for the log) is one disconnect
  with the reset disposition, and the handler returns whether or not the disconnect
  failed, logging the failure: there is no second connect or disconnect. No outcome of
  the handler ends the loop: while the session stays valid, the wait call succeeds and
  the context is not cancelled, the loop is still running after every number of
  iterations.
\<close>

theorem handleCard_once:
  assumes "Connect E (hctx s) readerName (ScardShareExclusive E) (ScardProtocolAny E) w
             = ((crd, err), w1)"
  shows "filter is_connect (fst (handleCard E s readerName w))
           = [EvConnect readerName (ScardShareExclusive E) (ScardProtocolAny E)]
    \<and> (err \<noteq> None \<longrightarrow>
          handleCard E s readerName w =
            (EvConnect readerName (ScardShareExclusive E) (ScardProtocolAny E) # error_log s err,
             w1)
          \<and> filter is_disconnect (fst (handleCard E s readerName w)) = [])
    \<and> (err = None \<longrightarrow>
          fst (handleCard E s readerName w) =
            [EvConnect readerName (ScardShareExclusive E) (ScardProtocolAny E), EvProtocol]
            @ debug s ''card connected''
            @ [EvDisconnect crd (ScardResetCard E)]
            @ (case fst (Disconnect E crd (ScardResetCard E) (snd (Protocol E crd w1))) of
                 Some e \<Rightarrow> error_log s (Some e)
               | None \<Rightarrow> debug s ''card disconnected'')
          \<and> filter is_disconnect (fst (handleCard E s readerName w))
              = [EvDisconnect crd (ScardResetCard E)])
    \<and> ((\<forall>h u. fst (IsValid E h u) = None)
        \<and> (\<forall>h sts t u. snd (fst (GetStatusChange E h sts t u)) = None)
        \<and> (\<forall>u. \<not> fst (ctxDone E u))
        \<longrightarrow> (\<forall>fuel sts u. fst (runner fuel E s sts u) = None))"
proof -
  have lg: "filter is_connect (Log s l m) = []" "filter is_disconnect (Log s l m) = []" for l m
    by (simp_all add: Log_def)
  have el: "filter is_connect (error_log s e) = []" "filter is_disconnect (error_log s e) = []"
    for e
    by (cases e; simp add: error_log_def lg)+
  have a: "filter is_connect (fst (handleCard E s readerName w))
           = [EvConnect readerName (ScardShareExclusive E) (ScardProtocolAny E)]"
    by (simp add: handleCard_def Let_def case_prod_beta debug_def lg el split: option.splits)
  have b: "handleCard E s readerName w =
            (EvConnect readerName (ScardShareExclusive E) (ScardProtocolAny E) # error_log s err,
             w1)
          \<and> filter is_disconnect (fst (handleCard E s readerName w)) = []"
    if "err \<noteq> None"
    using that assms by (auto simp: handleCard_def el)
  have c: "fst (handleCard E s readerName w) =
            [EvConnect readerName (ScardShareExclusive E) (ScardProtocolAny E), EvProtocol]
            @ debug s ''card connected''
            @ [EvDisconnect crd (ScardResetCard E)]
            @ (case fst (Disconnect E crd (ScardResetCard E) (snd (Protocol E crd w1))) of
                 Some e \<Rightarrow> error_log s (Some e)
               | None \<Rightarrow> debug s ''card disconnected'')
          \<and> filter is_disconnect (fst (handleCard E s readerName w))
              = [EvDisconnect crd (ScardResetCard E)]"
    if "err = None"
    using that assms
    by (simp add: handleCard_def Let_def case_prod_beta debug_def lg el split: option.splits)
  show ?thesis
    using a b c runner_keeps_running [of E] by blast
qed


theorem handleCard_once_witness:
  "handleCard env_connect_fails demo_sdk ''R0'' 0
     = ([EvConnect ''R0'' 1 3, EvLog LevelError ''nfc: connect failed''], 1)
   \<and> fst (handleCard demo_env demo_sdk ''R0'' 0)
     = [EvConnect ''R0'' 1 3, EvProtocol, EvLog LevelDebug ''nfc: card connected'',
        EvDisconnect (Some 1) 1, EvLog LevelDebug ''nfc: card disconnected'']
   \<and> fst (runner 5 env_connect_fails demo_sdk
            [\<lparr>Reader = ''R0'', CurrentState = 0, EventState = 0\<rparr>] 0) = None"
proof -
  have h1: "Connect env_connect_fails (hctx demo_sdk) ''R0''
              (ScardShareExclusive env_connect_fails) (ScardProtocolAny env_connect_fails) 0
            = ((None, Some (Ext ''connect failed'')), 1)"
    by (simp add: env_connect_fails_def demo_env_def)
  have h2: "Connect demo_env (hctx demo_sdk) ''R0''
              (ScardShareExclusive demo_env) (ScardProtocolAny demo_env) 0
            = ((Some 1, None), 1)"
    by (simp add: demo_env_def)
  have v: "\<forall>h u. fst (IsValid env_connect_fails h u) = None"
    by (simp add: env_connect_fails_def demo_env_def)
  have g: "\<forall>h sts t u. snd (fst (GetStatusChange env_connect_fails h sts t u)) = None"
    by (simp add: env_connect_fails_def demo_env_def)
  have d: "\<forall>u. \<not> fst (ctxDone env_connect_fails u)"
    by (simp add: env_connect_fails_def demo_env_def)
  have c1: "ScardShareExclusive env_connect_fails = 1" "ScardProtocolAny env_connect_fails = 3"
    by (simp_all add: env_connect_fails_def demo_env_def)
  have c2: "ScardShareExclusive demo_env = 1" "ScardProtocolAny demo_env = 3"
    "ScardResetCard demo_env = 1"
    "fst (Disconnect demo_env (Some 1) 1 (snd (Protocol demo_env (Some 1) 1))) = None"
    by (simp_all add: demo_env_def)
  have l: "error_log demo_sdk (Some (Ext ''connect failed''))
             = [EvLog LevelError ''nfc: connect failed'']"
    "debug demo_sdk ''card connected'' = [EvLog LevelDebug ''nfc: card connected'']"
    "debug demo_sdk ''card disconnected'' = [EvLog LevelDebug ''nfc: card disconnected'']"
    by (simp_all add: error_log_def debug_def Log_def logPrefix_def demo_sdk_def)
  show ?thesis
    using handleCard_once [OF h1] handleCard_once [OF h2] v g d c1 c2 l by simp
qed

subsection \<open>Further properties of the loop and of disposal\<close>

lemma stop_Log: "filter is_stop (Log s l m) = []"
  by (simp add: Log_def)

lemma stop_debug: "filter is_stop (debug s m) = []"
  by (simp add: debug_def stop_Log)

lemma stop_error_log: "filter is_stop (error_log s e) = []"
  by (cases e) (simp_all add: error_log_def stop_Log)

lemma stop_handleCard: "filter is_stop (fst (handleCard E s n w)) = []"
  by (simp add: handleCard_def Let_def case_prod_beta stop_debug stop_error_log
      split: option.splits)

lemma stop_range_states: "filter is_stop (fst (snd (snd (range_states E s sts w)))) = []"
  by (induction sts arbitrary: w)
     (simp_all add: Let_def case_prod_beta stop_debug stop_error_log stop_handleCard
        split: option.splits)

lemma stop_runner: "filter is_stop (fst (snd (runner n E s sts w))) = []"
  by (induction n arbitrary: sts w)
     (simp_all add: Let_def case_prod_beta stop_error_log stop_range_states
        split: option.splits)

lemma stop_Run_check: "filter is_stop (fst (snd (Run_check E s w))) = []"
  by (simp add: Run_check_def Let_def case_prod_beta stop_error_log)

text \<open>
  X1. Once the start checks pass, selection returns no error and some reader is enabled,
  \<open>Run\<close> never calls \<open>stop\<close>, however the loop ends: the exits of the loop (a cancelled
  context, an invalid session, a failing wait call) only log, wait for the cleanup task
  and return.
\<close>

theorem Run_loop_exit_no_stop:
  assumes "fst (Run_check E s w) = None"
      and "fst (Run_select s) = None"
      and "build_states E (readers (snd (Run_select s))) \<noteq> []"
  shows "filter is_stop (fst (snd (snd (Run fuel E s w)))) = []"
  using assms
  by (simp add: Run_def Let_def case_prod_beta stop_Run_check stop_runner stop_debug
      split: option.splits)

theorem Run_loop_exit_no_stop_witness:
  "fst (Run (Suc 0) env_invalid_later demo_sdk 0) = Some (Some (Ext ''invalid context''))
   \<and> filter is_stop (fst (snd (snd (Run (Suc 0) env_invalid_later demo_sdk 0)))) = []"
proof -
  have h1: "fst (Run_check env_invalid_later demo_sdk 0) = None"
    by (simp add: Run_check_def env_invalid_later_def demo_env_def demo_sdk_def
        demo_readers_def)
  have h2: "fst (Run_select demo_sdk) = None"
    by (simp add: Run_select_def demo_sdk_def)
  have h3: "build_states env_invalid_later (readers (snd (Run_select demo_sdk))) \<noteq> []"
    by (simp add: Run_select_def demo_sdk_def demo_readers_def)
  have r: "fst (Run (Suc 0) env_invalid_later demo_sdk 0) = Some (Some (Ext ''invalid context''))"
    by (simp add: Run_def Run_check_def Run_select_def env_invalid_later_def demo_env_def
        demo_sdk_def demo_readers_def error_log_def Log_def debug_def logPrefix_def Let_def)
  show ?thesis
    using Run_loop_exit_no_stop [OF h1 h2 h3, of "Suc 0"] r by simp
qed

lemma runner_nil: "fst (runner n E s sts w) = Some None \<Longrightarrow> \<exists>u. fst (ctxDone E u)"
proof (induction n arbitrary: sts w)
  case 0
  then show ?case by simp
next
  case (Suc n)
  show ?case
  proof (cases "fst (ctxDone E w)")
    case True
    then show ?thesis by blast
  next
    case False
    with Suc.prems Suc.IH show ?thesis
      by (auto simp: Let_def case_prod_beta split: option.splits)
  qed
qed

text \<open>
  X2. \<open>Run\<close> returns nil only when a poll of the context found it cancelled.
\<close>

theorem Run_nil_only_cancelled:
  assumes "fst (Run fuel E s w) = Some None"
  shows "\<exists>u. fst (ctxDone E u)"
proof -
  from assms obtain sts u where "fst (runner fuel E (snd (Run_select s)) sts u) = Some None"
    by (auto simp: Run_def Let_def case_prod_beta split: option.splits if_splits)
  then show ?thesis
    by (rule runner_nil)
qed

theorem Run_nil_only_cancelled_witness:
  "fst (Run (Suc 0) env_cancelled demo_sdk 0) = Some None \<and> (\<exists>u. fst (ctxDone env_cancelled u))"
proof -
  have r: "fst (Run (Suc 0) env_cancelled demo_sdk 0) = Some None"
    by (simp add: Run_def Run_check_def Run_select_def env_cancelled_def demo_env_def
        demo_sdk_def demo_readers_def error_log_def Log_def debug_def logPrefix_def Let_def)
  show ?thesis
    using Run_nil_only_cancelled [OF r] r by simp
qed

text \<open>
  X3. The first \<open>dispose\<close> of a controller that holds a session calls \<open>Cancel\<close> once
  and then \<open>Release\<close> once, on the world \<open>Cancel\<close> left, whether or not \<open>Cancel\<close>
  failed.
\<close>

theorem dispose_best_effort:
  assumes "\<not> Disposed s"
      and "hctx s \<noteq> None"
  shows "filter (\<lambda>e. e = EvCancel \<or> e = EvRelease) (fst (snd (dispose E s w)))
           = [EvCancel, EvRelease]
         \<and> snd (snd (dispose E s w)) = snd (Release E (hctx s) (snd (Cancel E (hctx s) w)))"
proof -
  have lg: "filter (\<lambda>e. e = EvCancel \<or> e = EvRelease) (Log t l m) = []" for t l m
    by (simp add: Log_def)
  have el: "filter (\<lambda>e. e = EvCancel \<or> e = EvRelease) (error_log t e) = []" for t e
    by (cases e) (simp_all add: error_log_def lg)
  show ?thesis
    using assms
    by (simp add: dispose_def Let_def case_prod_beta debug_def lg el)
qed

theorem dispose_best_effort_witness:
  "fst (snd (dispose env_cancel_fails demo_sdk 0)) =
     [EvLog LevelDebug ''nfc: disposing...'', EvLog LevelDebug ''nfc: cancel pending actions'',
      EvCancel, EvLog LevelError ''nfc: cancel failed'',
      EvLog LevelDebug ''nfc: released scard context'', EvRelease,
      EvLog LevelDebug ''nfc: sdk disposed'']
   \<and> filter (\<lambda>e. e = EvCancel \<or> e = EvRelease) (fst (snd (dispose env_cancel_fails demo_sdk 0)))
       = [EvCancel, EvRelease]"
proof -
  have h1: "\<not> Disposed demo_sdk"
    by (simp add: Disposed_def demo_sdk_def)
  have h2: "hctx demo_sdk \<noteq> None"
    by (simp add: demo_sdk_def)
  have t: "fst (snd (dispose env_cancel_fails demo_sdk 0)) =
     [EvLog LevelDebug ''nfc: disposing...'', EvLog LevelDebug ''nfc: cancel pending actions'',
      EvCancel, EvLog LevelError ''nfc: cancel failed'',
      EvLog LevelDebug ''nfc: released scard context'', EvRelease,
      EvLog LevelDebug ''nfc: sdk disposed'']"
    by (simp add: dispose_def Disposed_def env_cancel_fails_def demo_env_def demo_sdk_def
        error_log_def Log_def debug_def logPrefix_def Let_def)
  show ?thesis
    using dispose_best_effort [OF h1 h2, of env_cancel_fails 0] t by blast
qed

end
